theory Spec2Isabelle
  imports Complex_Main "HOL-Library.Sublist"
begin

section \<open>JavaScript values\<close>

text \<open>
  The service receives request bodies and patches of type \<^verbatim>\<open>Record<string, any>\<close>.
  A value of type \<^verbatim>\<open>any\<close> is one of the JSON shapes or \<^verbatim>\<open>undefined\<close>; an object is
  an association list, read with \<open>get_field\<close> (the first binding of a key wins, so that
  \<^verbatim>\<open>{...o, k: v}\<close> is \<open>(k, v) # o\<close>).
\<close>

datatype jsval =
    JUndefined
  | JNull
  | JBool bool
  | JNum rat
  | JStr string
  | JArr "jsval list"
  | JObj "(string \<times> jsval) list"

type_synonym record_any = "(string \<times> jsval) list"

definition get_field :: "record_any \<Rightarrow> string \<Rightarrow> jsval" where
  "get_field r k = (case map_of r k of None \<Rightarrow> JUndefined | Some v \<Rightarrow> v)"

text \<open>\<^verbatim>\<open>s.startsWith(p)\<close> on strings.\<close>

definition startsWith :: "string \<Rightarrow> string \<Rightarrow> bool" where
  "startsWith s p = prefix p s"

text \<open>
  \<^verbatim>\<open>x ?? d\<close> on an optional string: only \<^verbatim>\<open>undefined\<close> (here \<open>None\<close>) takes the default;
  the empty string is kept.
\<close>

definition nullish_or :: "string option \<Rightarrow> string \<Rightarrow> string" where
  "nullish_or x d = (case x of None \<Rightarrow> d | Some s \<Rightarrow> s)"

text \<open>
  The truthiness of an optional string, as \<^verbatim>\<open>userId && ...\<close> and \<^verbatim>\<open>matched?.id\<close> test it:
  \<^verbatim>\<open>undefined\<close> and the empty string are falsy.
\<close>

definition truthy_str :: "string option \<Rightarrow> bool" where
  "truthy_str x = (case x of None \<Rightarrow> False | Some s \<Rightarrow> s \<noteq> [])"

text \<open>\<^verbatim>\<open>parts.join(sep)\<close> on an array of strings.\<close>

fun join :: "string \<Rightarrow> string list \<Rightarrow> string" where
  "join sep [] = []"
| "join sep [x] = x"
| "join sep (x # y # ys) = x @ sep @ join sep (y # ys)"

subsection \<open>Numbers\<close>

text \<open>
  A JavaScript number is \<^verbatim>\<open>NaN\<close>, an infinity or a finite value. Finite values are
  taken as exact rationals: the rounding of IEEE doubles is not modelled (the numbers of
  this service are page numbers, page sizes and row counts).
\<close>

datatype jsnum = NaN | NegInf | Fin rat | PosInf

text \<open>\<^verbatim>\<open>a < b\<close>: every comparison with \<^verbatim>\<open>NaN\<close> is false.\<close>

fun js_less :: "jsnum \<Rightarrow> jsnum \<Rightarrow> bool" where
  "js_less NaN b = False"
| "js_less a NaN = False"
| "js_less PosInf b = False"
| "js_less a NegInf = False"
| "js_less NegInf b = True"
| "js_less a PosInf = True"
| "js_less (Fin a) (Fin b) = (a < b)"


text \<open>\<^verbatim>\<open>Math.max(a, b)\<close> and \<^verbatim>\<open>Math.min(a, b)\<close>: \<^verbatim>\<open>NaN\<close> if either argument is.\<close>

definition Math_max :: "jsnum \<Rightarrow> jsnum \<Rightarrow> jsnum" where
  "Math_max a b = (if a = NaN \<or> b = NaN then NaN else if js_less a b then b else a)"

definition Math_min :: "jsnum \<Rightarrow> jsnum \<Rightarrow> jsnum" where
  "Math_min a b = (if a = NaN \<or> b = NaN then NaN else if js_less b a then b else a)"

text \<open>\<^verbatim>\<open>Math.ceil(a)\<close>.\<close>

fun Math_ceil :: "jsnum \<Rightarrow> jsnum" where
  "Math_ceil (Fin q) = Fin (of_int \<lceil>q\<rceil>)"
| "Math_ceil a = a"

text \<open>
  \<^verbatim>\<open>a / b\<close>. There is no negative zero here, so a finite non-zero value divided by zero
  takes the sign of the dividend; the service only divides by the clamped page size.
\<close>

fun js_div :: "jsnum \<Rightarrow> jsnum \<Rightarrow> jsnum" where
  "js_div (Fin a) (Fin b) =
     (if b = 0 then (if a = 0 then NaN else if 0 < a then PosInf else NegInf)
      else Fin (a / b))"
| "js_div (Fin a) PosInf = Fin 0"
| "js_div (Fin a) NegInf = Fin 0"
| "js_div PosInf (Fin b) = (if b < 0 then NegInf else PosInf)"
| "js_div NegInf (Fin b) = (if b < 0 then PosInf else NegInf)"
| "js_div a b = NaN"

text \<open>\<^verbatim>\<open>a || d\<close> on numbers: \<^verbatim>\<open>NaN\<close> and zero are falsy.\<close>

definition num_or :: "jsnum \<Rightarrow> jsnum \<Rightarrow> jsnum" where
  "num_or a d = (if a = NaN \<or> a = Fin 0 then d else a)"

section \<open>Data model\<close>

text \<open>
  A row of the \<^verbatim>\<open>properties\<close> table: its identity, its owner, its image list and the
  remaining columns by name. A row of the \<^verbatim>\<open>photos\<close> table has the columns the code and
  the stored procedure write; a photo whose \<open>property_id\<close> is \<open>None\<close> is an orphan.
\<close>

record property =
  prop_id :: string
  owner_id :: "string option"
  images :: "string list"
  columns :: record_any

record photo =
  photo_id :: string
  imagekit_file_id :: string
  url :: string
  thumbnail_url :: string
  category :: string
  uploader_id :: "string option"
  property_id :: "string option"
  metadata :: "(string \<times> string) list"

record database =
  tbl_properties :: "property list"
  tbl_photos :: "photo list"
  serial :: nat

record GetPropertiesParams =
  propertyType :: "string option"
  city :: "string option"
  minPrice :: "string option"
  maxPrice :: "string option"
  status :: "string option"
  ownerId :: "string option"
  page :: "string option"
  limit :: "string option"

record pagination_info =
  pg_page :: jsnum
  pg_limit :: jsnum
  total :: nat
  totalPages :: jsnum
  hasNextPage :: bool
  hasPrevPage :: bool

record GetPropertiesResult =
  properties :: "property list"
  pagination :: pagination_info

text \<open>What \<^verbatim>\<open>insertPropertySchema.safeParse\<close> yields on success: the parsed fields, and
  the image list typed \<^verbatim>\<open>string[] | undefined\<close> as the service casts it.\<close>

record parsed_body =
  parsed_data :: record_any
  parsed_images :: "string list option"

subsection \<open>The cache\<close>

datatype cache_value = PropertyEntry property | ListingEntry GetPropertiesResult

record cache_entry =
  entry_value :: cache_value
  expiry :: nat

type_synonym ttl_cache = "string \<Rightarrow> cache_entry option"

text \<open>
  The cache module (\<^verbatim>\<open>../../cache\<close>) is not among the sources; its three operations
  follow the specification of the TTL cache. Time is a count of ticks.
\<close>

text \<open>
  Modelled from the spec: \<^verbatim>\<open>cache.set\<close> of the missing cache module. It stores the value
  with expiry = now + ttl.
\<close>

definition cache_set :: "string \<Rightarrow> cache_value \<Rightarrow> nat \<Rightarrow> nat \<Rightarrow> ttl_cache \<Rightarrow> ttl_cache" where
  "cache_set key v ttl now c = c(key \<mapsto> \<lparr>entry_value = v, expiry = now + ttl\<rparr>)"

text \<open>
  Modelled from the spec: \<^verbatim>\<open>cache.get\<close> of the missing cache module. It returns the value
  if present and unexpired; otherwise it behaves as a miss and evicts the stale entry. An
  entry is never returned once the current time exceeds its expiry.
\<close>

definition cache_get :: "string \<Rightarrow> nat \<Rightarrow> ttl_cache \<Rightarrow> cache_value option \<times> ttl_cache" where
  "cache_get key now c =
     (case c key of
        None \<Rightarrow> (None, c)
      | Some en \<Rightarrow>
          if now \<le> expiry en then (Some (entry_value en), c) else (None, c(key := None)))"

text \<open>
  Modelled from the spec: \<^verbatim>\<open>cache.invalidate\<close> of the missing cache module. It removes
  every entry whose key equals the target or starts with the target.
\<close>

definition cache_invalidate :: "string \<Rightarrow> ttl_cache \<Rightarrow> ttl_cache" where
  "cache_invalidate target c = (\<lambda>k. if k = target \<or> startsWith k target then None else c k)"

subsection \<open>The environment and the state\<close>

text \<open>
  Calls that leave the service: repository functions, calls on the store client, and the
  statements of the stored procedure. Each is named by what it is asked to do.
\<close>

datatype repo_call =
    FindAllProperties
  | FindPropertyById string
  | RepoUpdateProperty string
  | RepoDeleteProperty string
  | IncrementPropertyViews string

datatype client_call =
    RpcCreatePropertyWithPhotos
  | SelectOrphanPhotoByUrl string
  | UpdatePhotoProperty string
  | InsertPhotos
  | SelectOrphanPhotos
  | SelectPropertyByImage string

datatype sql_stmt = InsertPropertyRow | InsertPhotoRow string

text \<open>
  A call on the store client resolves to \<^verbatim>\<open>{data, error}\<close>: it succeeds, or it returns
  an error value (with \<^verbatim>\<open>data\<close> null), or the awaited call raises.
\<close>

datatype outcome = Succeeds | ReturnsError string | Throws string

datatype event =
    RepoCall repo_call
  | ClientCall client_call
  | CacheGet string
  | CacheSet string
  | CacheInvalidate string
  | OwnershipInvalidate string string

text \<open>
  What the service does not decide itself is a parameter: the built-ins \<^verbatim>\<open>Number\<close> (on a
  string) and \<^verbatim>\<open>String\<close> (on a number), the constants \<^verbatim>\<open>CACHE_TTL\<close>, the schema's
  \<^verbatim>\<open>safeParse\<close>, whether \<^verbatim>\<open>getSupabaseOrThrow\<close> raises (and with what message), how each
  store call and each statement of the stored procedure turns out, the store's id
  generator, and how the repository filters a listing, applies a patch to a row and
  counts a view.
\<close>

record env =
  js_Number :: "string \<Rightarrow> jsnum"
  js_String :: "jsnum \<Rightarrow> string"
  ttl_PROPERTIES_LIST :: nat
  ttl_PROPERTY_DETAIL :: nat
  schema_safeParse :: "record_any \<Rightarrow> string list + parsed_body"
  getSupabaseOrThrow :: "string option"
  client :: "client_call \<Rightarrow> outcome"
  sql_raises :: "sql_stmt \<Rightarrow> string option"
  gen_random_uuid :: "nat \<Rightarrow> string"
  repo_raises :: "repo_call \<Rightarrow> string option"
  find_all :: "GetPropertiesParams \<Rightarrow> jsnum \<Rightarrow> jsnum \<Rightarrow> property list
                \<Rightarrow> property list option \<times> nat option"
  patch_row :: "record_any \<Rightarrow> property \<Rightarrow> property"
  bump_views :: "property \<Rightarrow> property"

text \<open>
  The state: the store, the process-wide cache, the ownership cache of the authorization
  middleware, and the list of outside calls made so far.
\<close>

record world =
  db :: database
  cache :: ttl_cache
  ownership_cache :: "string \<times> string \<Rightarrow> string option"
  trace :: "event list"

definition logged :: "event \<Rightarrow> world \<Rightarrow> world" where
  "logged ev w = w\<lparr>trace := trace w @ [ev]\<rparr>"

text \<open>\<^verbatim>\<open>cache.get\<close>, \<^verbatim>\<open>cache.set\<close> and \<^verbatim>\<open>cache.invalidate\<close> on the state.\<close>

definition do_cache_get :: "string \<Rightarrow> nat \<Rightarrow> world \<Rightarrow> cache_value option \<times> world" where
  "do_cache_get key now w =
     (let (v, c) = cache_get key now (cache w)
      in (v, logged (CacheGet key) (w\<lparr>cache := c\<rparr>)))"

definition do_cache_set :: "string \<Rightarrow> cache_value \<Rightarrow> nat \<Rightarrow> nat \<Rightarrow> world \<Rightarrow> world" where
  "do_cache_set key v ttl now w =
     logged (CacheSet key) (w\<lparr>cache := cache_set key v ttl now (cache w)\<rparr>)"

definition do_cache_invalidate :: "string \<Rightarrow> world \<Rightarrow> world" where
  "do_cache_invalidate target w =
     logged (CacheInvalidate target) (w\<lparr>cache := cache_invalidate target (cache w)\<rparr>)"

text \<open>
  Modelled from the spec: \<^verbatim>\<open>invalidateOwnershipCache\<close> (auth middleware) is not among the
  sources. It drops the ownership-authorization entry keyed by (resource type, id).
\<close>

definition invalidateOwnershipCache :: "string \<Rightarrow> string \<Rightarrow> world \<Rightarrow> world" where
  "invalidateOwnershipCache rtype i w =
     logged (OwnershipInvalidate rtype i)
       (w\<lparr>ownership_cache := (ownership_cache w)((rtype, i) := None)\<rparr>)"

section \<open>The repository\<close>

text \<open>
  The repository module (\<^verbatim>\<open>./property.repository\<close>) is not among the sources. Each of its
  functions is one call on the store, which either raises a store fault or does its work.
\<close>

text \<open>
  Modelled from the spec: \<^verbatim>\<open>findPropertyById\<close> of the missing repository. It loads the
  record with that id from the store; absent is a normal outcome, not a fault.
\<close>

definition repository_findPropertyById ::
  "env \<Rightarrow> string \<Rightarrow> world \<Rightarrow> (string + property option) \<times> world" where
  "repository_findPropertyById e i w =
     (let w1 = logged (RepoCall (FindPropertyById i)) w
      in case repo_raises e (FindPropertyById i) of
           Some m \<Rightarrow> (Inl m, w1)
         | None \<Rightarrow> (Inr (find (\<lambda>p. prop_id p = i) (tbl_properties (db w1))), w1))"

text \<open>
  Modelled from the spec: \<^verbatim>\<open>updateProperty\<close> of the missing repository. It applies the
  patch to the row in the store and returns the updated record.
\<close>

definition repository_updateProperty ::
  "env \<Rightarrow> string \<Rightarrow> record_any \<Rightarrow> world \<Rightarrow> (string + property option) \<times> world" where
  "repository_updateProperty e i updateData w =
     (let w1 = logged (RepoCall (RepoUpdateProperty i)) w
      in case repo_raises e (RepoUpdateProperty i) of
           Some m \<Rightarrow> (Inl m, w1)
         | None \<Rightarrow>
             (Inr (map_option (patch_row e updateData)
                     (find (\<lambda>p. prop_id p = i) (tbl_properties (db w1)))),
              w1\<lparr>db := (db w1)\<lparr>tbl_properties :=
                     map (\<lambda>p. if prop_id p = i then patch_row e updateData p else p)
                       (tbl_properties (db w1))\<rparr>\<rparr>))"

text \<open>
  Modelled from the spec: \<^verbatim>\<open>deleteProperty\<close> of the missing repository. Deletion is
  delegated to the store and is destructive: the row is removed.
\<close>

definition repository_deleteProperty ::
  "env \<Rightarrow> string \<Rightarrow> world \<Rightarrow> (string + unit) \<times> world" where
  "repository_deleteProperty e i w =
     (let w1 = logged (RepoCall (RepoDeleteProperty i)) w
      in case repo_raises e (RepoDeleteProperty i) of
           Some m \<Rightarrow> (Inl m, w1)
         | None \<Rightarrow>
             (Inr (),
              w1\<lparr>db := (db w1)\<lparr>tbl_properties :=
                     filter (\<lambda>p. prop_id p \<noteq> i) (tbl_properties (db w1))\<rparr>\<rparr>))"

text \<open>
  Modelled from the spec: \<^verbatim>\<open>incrementPropertyViews\<close> of the missing repository. It is the
  counter increment, always against the store.
\<close>

definition repository_incrementPropertyViews ::
  "env \<Rightarrow> string \<Rightarrow> world \<Rightarrow> (string + unit) \<times> world" where
  "repository_incrementPropertyViews e i w =
     (let w1 = logged (RepoCall (IncrementPropertyViews i)) w
      in case repo_raises e (IncrementPropertyViews i) of
           Some m \<Rightarrow> (Inl m, w1)
         | None \<Rightarrow>
             (Inr (),
              w1\<lparr>db := (db w1)\<lparr>tbl_properties :=
                     map (\<lambda>p. if prop_id p = i then bump_views e p else p)
                       (tbl_properties (db w1))\<rparr>\<rparr>))"

text \<open>
  Modelled from the spec: \<^verbatim>\<open>findAllProperties\<close> of the missing repository. It returns
  one page of rows for the filters together with the total row count.
\<close>

definition repository_findAllProperties ::
  "env \<Rightarrow> GetPropertiesParams \<Rightarrow> jsnum \<Rightarrow> jsnum \<Rightarrow> world
     \<Rightarrow> (string + property list option \<times> nat option) \<times> world" where
  "repository_findAllProperties e params pg lmt w =
     (let w1 = logged (RepoCall FindAllProperties) w
      in case repo_raises e FindAllProperties of
           Some m \<Rightarrow> (Inl m, w1)
         | None \<Rightarrow>
             (Inr (find_all e (params\<lparr>page := None, limit := None\<rparr>) pg lmt
                     (tbl_properties (db w1))),
              w1))"

section \<open>Queries\<close>

text \<open>\<^verbatim>\<open>Number(x)\<close> on an optional string: \<^verbatim>\<open>Number(undefined)\<close> is \<^verbatim>\<open>NaN\<close>.\<close>

definition Number_of :: "env \<Rightarrow> string option \<Rightarrow> jsnum" where
  "Number_of e x = (case x of None \<Rightarrow> NaN | Some s \<Rightarrow> js_Number e s)"

text \<open>The locals \<^verbatim>\<open>page\<close>, \<^verbatim>\<open>limit\<close> and \<^verbatim>\<open>cacheKey\<close> of \<^verbatim>\<open>getProperties\<close>.\<close>

definition getProperties_page :: "env \<Rightarrow> GetPropertiesParams \<Rightarrow> jsnum" where
  "getProperties_page e params = Math_max (Fin 1) (num_or (Number_of e (page params)) (Fin 1))"

definition getProperties_limit :: "env \<Rightarrow> GetPropertiesParams \<Rightarrow> jsnum" where
  "getProperties_limit e params =
     Math_min (Fin 100) (Math_max (Fin 1) (num_or (Number_of e (limit params)) (Fin 20)))"

definition getProperties_cacheKey :: "env \<Rightarrow> GetPropertiesParams \<Rightarrow> string" where
  "getProperties_cacheKey e params =
     join '':''
       [''properties'',
        nullish_or (propertyType params) [],
        nullish_or (city params) [],
        nullish_or (minPrice params) [],
        nullish_or (maxPrice params) [],
        nullish_or (status params) ''active'',
        nullish_or (ownerId params) [],
        js_String e (getProperties_page e params),
        js_String e (getProperties_limit e params)]"

text \<open>
  \<^verbatim>\<open>getProperties\<close>. A cache hit returns what is stored under the key (the type
  parameter of \<^verbatim>\<open>cache.get\<close> is not checked at run time). The defaults of the
  destructuring are \<^verbatim>\<open>data = []\<close> and \<^verbatim>\<open>count = 0\<close>.
\<close>

definition getProperties ::
  "env \<Rightarrow> nat \<Rightarrow> GetPropertiesParams \<Rightarrow> world \<Rightarrow> (string + cache_value) \<times> world" where
  "getProperties e now params w =
     (let pg = getProperties_page e params;
          lmt = getProperties_limit e params;
          cacheKey = getProperties_cacheKey e params;
          (cached, w1) = do_cache_get cacheKey now w
      in case cached of
           Some v \<Rightarrow> (Inr v, w1)
         | None \<Rightarrow>
             (case repository_findAllProperties e params pg lmt w1 of
                (Inl m, w2) \<Rightarrow> (Inl m, w2)
              | (Inr (data_opt, count_opt), w2) \<Rightarrow>
                  (let rows = (case data_opt of None \<Rightarrow> [] | Some d \<Rightarrow> d);
                       count = (case count_opt of None \<Rightarrow> 0 | Some n \<Rightarrow> n);
                       tp = Math_ceil (js_div (Fin (of_nat count)) lmt);
                       result = \<lparr>properties = rows,
                                 pagination = \<lparr>pg_page = pg, pg_limit = lmt, total = count,
                                   totalPages = tp,
                                   hasNextPage = js_less pg tp,
                                   hasPrevPage = js_less (Fin 1) pg\<rparr>\<rparr>
                   in (Inr (ListingEntry result),
                       do_cache_set cacheKey (ListingEntry result)
                         (ttl_PROPERTIES_LIST e) now w2))))"

text \<open>\<^verbatim>\<open>getPropertyById\<close>: \<open>Inr None\<close> is the \<^verbatim>\<open>null\<close> of a property that is not found.\<close>

definition getPropertyById ::
  "env \<Rightarrow> nat \<Rightarrow> string \<Rightarrow> world \<Rightarrow> (string + cache_value option) \<times> world" where
  "getPropertyById e now i w =
     (let cacheKey = ''property:'' @ i;
          (cached, w1) = do_cache_get cacheKey now w
      in case cached of
           Some v \<Rightarrow> (Inr (Some v), w1)
         | None \<Rightarrow>
             (case repository_findPropertyById e i w1 of
                (Inl m, w2) \<Rightarrow> (Inl m, w2)
              | (Inr None, w2) \<Rightarrow> (Inr None, w2)
              | (Inr (Some p), w2) \<Rightarrow>
                  (Inr (Some (PropertyEntry p)),
                   do_cache_set cacheKey (PropertyEntry p) (ttl_PROPERTY_DETAIL e) now w2)))"

section \<open>The stored procedure\<close>

text \<open>
  \<^verbatim>\<open>create_property_with_photos(p jsonb, image_urls text[])\<close> of migration 0002. The
  \<^verbatim>\<open>INSERT INTO properties\<close> names the columns below and \<^verbatim>\<open>owner_id\<close>; it names no image
  column, so the new row holds no image URL. Ids come from the store's generator.
\<close>

definition property_columns :: "string list" where
  "property_columns =
     [''title'', ''description'', ''address'', ''city'', ''state'', ''zip_code'', ''price'',
      ''bedrooms'', ''bathrooms'', ''square_feet'', ''property_type'', ''amenities'',
      ''latitude'', ''longitude'', ''furnished'', ''pets_allowed'', ''lease_term'',
      ''utilities_included'', ''status'', ''listing_status'', ''visibility'', ''expires_at'',
      ''auto_unpublish'', ''expiration_days'', ''price_history'', ''view_count'',
      ''save_count'', ''application_count'', ''listed_at'', ''scheduled_publish_at'',
      ''address_verified'', ''application_fee'']"

text \<open>\<^verbatim>\<open>owner uuid := (p->>'owner_id')::uuid\<close>: the text of the field, NULL when it holds none.\<close>

definition sql_owner :: "record_any \<Rightarrow> string option" where
  "sql_owner p = (case get_field p ''owner_id'' of JStr s \<Rightarrow> Some s | _ \<Rightarrow> None)"

definition new_property_row :: "env \<Rightarrow> record_any \<Rightarrow> database \<Rightarrow> property" where
  "new_property_row e p d =
     \<lparr>prop_id = gen_random_uuid e (serial d), owner_id = sql_owner p, images = [],
      columns = map (\<lambda>c. (c, get_field p c)) property_columns\<rparr>"

definition creation_photo_row :: "string \<Rightarrow> string option \<Rightarrow> string \<Rightarrow> string \<Rightarrow> photo" where
  "creation_photo_row new_id owner pid img =
     \<lparr>photo_id = new_id, imagekit_file_id = img, url = img, thumbnail_url = img,
      category = ''property'', uploader_id = owner, property_id = Some pid,
      metadata = [(''source'', ''property_creation'')]\<rparr>"

text \<open>
  The \<^verbatim>\<open>FOREACH img IN ARRAY image_urls LOOP INSERT INTO photos ...\<close>: each insert either
  raises or adds the row. The result is the raised error, if any, with the working
  database as the loop left it.
\<close>

fun sql_insert_photos ::
  "env \<Rightarrow> string option \<Rightarrow> string \<Rightarrow> string list \<Rightarrow> database \<Rightarrow> string option \<times> database" where
  "sql_insert_photos e owner pid [] d = (None, d)"
| "sql_insert_photos e owner pid (img # imgs) d =
     (case sql_raises e (InsertPhotoRow img) of
        Some m \<Rightarrow> (Some m, d)
      | None \<Rightarrow>
          sql_insert_photos e owner pid imgs
            (d\<lparr>tbl_photos :=
                 tbl_photos d @ [creation_photo_row (gen_random_uuid e (serial d)) owner pid img],
               serial := Suc (serial d)\<rparr>))"

text \<open>The body of the procedure, statement by statement, on the working database.\<close>

definition create_property_with_photos ::
  "env \<Rightarrow> record_any \<Rightarrow> string list option \<Rightarrow> database \<Rightarrow> (string + property) \<times> database" where
  "create_property_with_photos e p image_urls d =
     (case sql_raises e InsertPropertyRow of
        Some m \<Rightarrow> (Inl m, d)
      | None \<Rightarrow>
          (let new_prop = new_property_row e p d;
               d1 = d\<lparr>tbl_properties := tbl_properties d @ [new_prop], serial := Suc (serial d)\<rparr>
           in case image_urls of
                None \<Rightarrow> (Inr new_prop, d1)
              | Some imgs \<Rightarrow>
                  (case sql_insert_photos e (sql_owner p) (prop_id new_prop) imgs d1 of
                     (Some m, d2) \<Rightarrow> (Inl m, d2)
                   | (None, d2) \<Rightarrow> (Inr new_prop, d2))))"

text \<open>
  A call of a stored procedure is one statement of the store and runs in one transaction
  (the service's comment: "inside a single transaction (atomic)"): when the body raises,
  every write of the body is rolled back.
\<close>

definition call_atomic ::
  "(database \<Rightarrow> (string + 'a) \<times> database) \<Rightarrow> database \<Rightarrow> (string + 'a) \<times> database" where
  "call_atomic body d =
     (case body d of
        (Inl m, d') \<Rightarrow> (Inl m, d)
      | (Inr v, d') \<Rightarrow> (Inr v, d'))"

section \<open>Mutations\<close>

text \<open>What an awaited call on the store client gives: \<^verbatim>\<open>{data, error}\<close>, or it raises.\<close>

datatype 'a reply = Reply "'a option" "string option" | Rejected string

text \<open>\<^verbatim>\<open>m || d\<close> on a message: the empty message takes the default.\<close>

definition message_or :: "string \<Rightarrow> string \<Rightarrow> string" where
  "message_or m d = (if m = [] then d else m)"

text \<open>
  \<^verbatim>\<open>supabaseClient.rpc('create_property_with_photos', {p, image_urls})\<close>: the call may
  fail before the procedure runs; otherwise the procedure runs atomically and an error it
  raises comes back as the \<^verbatim>\<open>error\<close> of the reply.
\<close>

definition rpc_create_property_with_photos ::
  "env \<Rightarrow> record_any \<Rightarrow> string list \<Rightarrow> world \<Rightarrow> property reply \<times> world" where
  "rpc_create_property_with_photos e p image_urls w =
     (let w1 = logged (ClientCall RpcCreatePropertyWithPhotos) w
      in case client e RpcCreatePropertyWithPhotos of
           Throws m \<Rightarrow> (Rejected m, w1)
         | ReturnsError m \<Rightarrow> (Reply None (Some m), w1)
         | Succeeds \<Rightarrow>
             (case call_atomic (create_property_with_photos e p (Some image_urls)) (db w1) of
                (Inl m, d) \<Rightarrow> (Reply None (Some m), w1\<lparr>db := d\<rparr>)
              | (Inr row, d) \<Rightarrow> (Reply (Some row) None, w1\<lparr>db := d\<rparr>)))"

text \<open>
  \<^verbatim>\<open>createProperty\<close>: \<open>Inl m\<close> is \<^verbatim>\<open>{error: m}\<close> and \<open>Inr d\<close> is \<^verbatim>\<open>{data: d}\<close>.
  \<^verbatim>\<open>getSupabaseOrThrow\<close> raises inside the \<^verbatim>\<open>try\<close> when the client is not configured.
\<close>

definition createProperty ::
  "env \<Rightarrow> record_any \<Rightarrow> string \<Rightarrow> world \<Rightarrow> (string + property option) \<times> world" where
  "createProperty e body userId w =
     (case schema_safeParse e body of
        Inl errors \<Rightarrow> (Inl (case errors of [] \<Rightarrow> ''Invalid input'' | m # ms \<Rightarrow> m), w)
      | Inr parsed \<Rightarrow>
          (let propertyData = (''owner_id'', JStr userId) # parsed_data parsed
           in case getSupabaseOrThrow e of
                Some m \<Rightarrow> (Inl (message_or m ''Failed to save property to database''), w)
              | None \<Rightarrow>
                  (let image_urls = (case parsed_images parsed of Some imgs \<Rightarrow> imgs | None \<Rightarrow> [])
                   in case rpc_create_property_with_photos e propertyData image_urls w of
                        (Rejected m, w1) \<Rightarrow>
                          (Inl (message_or m ''Failed to save property to database''), w1)
                      | (Reply d (Some m), w1) \<Rightarrow>
                          (Inl (message_or m ''Failed to create property''), w1)
                      | (Reply d None, w1) \<Rightarrow>
                          (Inr d, do_cache_invalidate ''properties:'' w1))))"

text \<open>
  The photo association of \<^verbatim>\<open>updateProperty\<close>. The row pushed to \<^verbatim>\<open>toInsert\<close> gets its
  id when it is inserted. \<^verbatim>\<open>userId || null\<close> is the uploader.
\<close>

definition update_photo_row :: "string option \<Rightarrow> string \<Rightarrow> string \<Rightarrow> photo" where
  "update_photo_row userId i u =
     \<lparr>photo_id = [], imagekit_file_id = u, url = u, thumbnail_url = u,
      category = ''property'',
      uploader_id = (if truthy_str userId then userId else None),
      property_id = Some i,
      metadata = [(''source'', ''property_update'')]\<rparr>"

definition set_photo_property :: "string \<Rightarrow> string \<Rightarrow> world \<Rightarrow> world" where
  "set_photo_property phid pid w =
     w\<lparr>db := (db w)\<lparr>tbl_photos :=
          map (\<lambda>q. if photo_id q = phid then q\<lparr>property_id := Some pid\<rparr> else q)
            (tbl_photos (db w))\<rparr>\<rparr>"

fun associate_images ::
  "env \<Rightarrow> string \<Rightarrow> string option \<Rightarrow> string list \<Rightarrow> world \<Rightarrow> photo list \<Rightarrow> world \<times> photo list" where
  "associate_images e i userId [] w toInsert = (w, toInsert)"
| "associate_images e i userId (u # us) w toInsert =
     (let w1 = logged (ClientCall (SelectOrphanPhotoByUrl u)) w;
          pushed = toInsert @ [update_photo_row userId i u]
      in case client e (SelectOrphanPhotoByUrl u) of
           Throws m \<Rightarrow> associate_images e i userId us w1 pushed
         | ReturnsError m \<Rightarrow> associate_images e i userId us w1 pushed
         | Succeeds \<Rightarrow>
             (case find (\<lambda>q. url q = u \<and> property_id q = None) (tbl_photos (db w1)) of
                None \<Rightarrow> associate_images e i userId us w1 pushed
              | Some existing \<Rightarrow>
                  if photo_id existing = [] then associate_images e i userId us w1 pushed
                  else
                    (let w2 = logged (ClientCall (UpdatePhotoProperty (photo_id existing))) w1
                     in case client e (UpdatePhotoProperty (photo_id existing)) of
                          Throws m \<Rightarrow> associate_images e i userId us w2 pushed
                        | ReturnsError m \<Rightarrow> associate_images e i userId us w2 toInsert
                        | Succeeds \<Rightarrow>
                            associate_images e i userId us
                              (set_photo_property (photo_id existing) i w2) toInsert)))"

text \<open>\<^verbatim>\<open>from('photos').insert(toInsert)\<close>: the store gives each new row its id.\<close>

fun insert_rows :: "env \<Rightarrow> photo list \<Rightarrow> database \<Rightarrow> database" where
  "insert_rows e [] d = d"
| "insert_rows e (r # rs) d =
     insert_rows e rs
       (d\<lparr>tbl_photos := tbl_photos d @ [r\<lparr>photo_id := gen_random_uuid e (serial d)\<rparr>],
          serial := Suc (serial d)\<rparr>)"

text \<open>
  The whole \<^verbatim>\<open>try\<close> block after the update. The patch's \<^verbatim>\<open>images\<close> is cast to
  \<^verbatim>\<open>string[] | undefined\<close>; the loop runs over its strings. Nothing raised in the block
  leaves it.
\<close>

definition associate_photos_on_update ::
  "env \<Rightarrow> string \<Rightarrow> record_any \<Rightarrow> string option \<Rightarrow> world \<Rightarrow> world" where
  "associate_photos_on_update e i updateData userId w =
     (case get_field updateData ''images'' of
        JArr xs \<Rightarrow>
          if xs = [] then w
          else
            (case getSupabaseOrThrow e of
               Some m \<Rightarrow> w
             | None \<Rightarrow>
                 (let (w1, toInsert) =
                        associate_images e i userId (concat (map (\<lambda>x. case x of JStr s \<Rightarrow> [s] | _ \<Rightarrow> []) xs)) w []
                  in if toInsert = [] then w1
                     else
                       (let w2 = logged (ClientCall InsertPhotos) w1
                        in case client e InsertPhotos of
                             Succeeds \<Rightarrow> w2\<lparr>db := insert_rows e toInsert (db w2)\<rparr>
                           | ReturnsError m \<Rightarrow> w2
                           | Throws m \<Rightarrow> w2)))
      | _ \<Rightarrow> w)"

text \<open>
  \<^verbatim>\<open>updateProperty\<close> and \<^verbatim>\<open>deleteProperty\<close>: \<open>Inl m\<close> is \<^verbatim>\<open>throw new Error(m)\<close>, or a fault
  raised by the repository.
\<close>

definition updateProperty ::
  "env \<Rightarrow> string \<Rightarrow> record_any \<Rightarrow> string option \<Rightarrow> world \<Rightarrow> (string + property option) \<times> world" where
  "updateProperty e i updateData userId w =
     (case repository_findPropertyById e i w of
        (Inl m, w1) \<Rightarrow> (Inl m, w1)
      | (Inr None, w1) \<Rightarrow> (Inl ''Property not found'', w1)
      | (Inr (Some prop), w1) \<Rightarrow>
          if truthy_str userId \<and> owner_id prop \<noteq> userId
          then (Inl ''Unauthorized: You do not own this property'', w1)
          else
            (case repository_updateProperty e i updateData w1 of
               (Inl m, w2) \<Rightarrow> (Inl m, w2)
             | (Inr updated, w2) \<Rightarrow>
                 (let w3 = associate_photos_on_update e i updateData userId w2;
                      w4 = do_cache_invalidate (''property:'' @ i) w3;
                      w5 = do_cache_invalidate ''properties:'' w4;
                      w6 = invalidateOwnershipCache ''property'' i w5
                  in (Inr updated, w6))))"

definition deleteProperty ::
  "env \<Rightarrow> string \<Rightarrow> string option \<Rightarrow> world \<Rightarrow> (string + unit) \<times> world" where
  "deleteProperty e i userId w =
     (case repository_findPropertyById e i w of
        (Inl m, w1) \<Rightarrow> (Inl m, w1)
      | (Inr None, w1) \<Rightarrow> (Inl ''Property not found'', w1)
      | (Inr (Some prop), w1) \<Rightarrow>
          if truthy_str userId \<and> owner_id prop \<noteq> userId
          then (Inl ''Unauthorized: You do not own this property'', w1)
          else
            (case repository_deleteProperty e i w1 of
               (Inl m, w2) \<Rightarrow> (Inl m, w2)
             | (Inr u, w2) \<Rightarrow>
                 (let w3 = do_cache_invalidate (''property:'' @ i) w2;
                      w4 = do_cache_invalidate ''properties:'' w3;
                      w5 = invalidateOwnershipCache ''property'' i w4
                  in (Inr (), w5))))"

text \<open>\<^verbatim>\<open>recordPropertyView\<close> awaits the repository call and nothing else.\<close>

definition recordPropertyView :: "env \<Rightarrow> string \<Rightarrow> world \<Rightarrow> (string + unit) \<times> world" where
  "recordPropertyView e propertyId w = repository_incrementPropertyViews e propertyId w"

section \<open>Route handlers\<close>

text \<open>A response: the HTTP status and its message.\<close>

datatype http_response = Response nat string

text \<open>\<^verbatim>\<open>POST /:id/view\<close>.\<close>

definition post_view_handler :: "env \<Rightarrow> string \<Rightarrow> world \<Rightarrow> http_response \<times> world" where
  "post_view_handler e i w =
     (case recordPropertyView e i w of
        (Inl m, w1) \<Rightarrow> (Response 500 ''Failed to record view'', w1)
      | (Inr u, w1) \<Rightarrow> (Response 200 ''View recorded'', w1))"

text \<open>
  \<^verbatim>\<open>POST /reconcile-photos\<close>. The loop over the orphan photos: the lookup
  \<^verbatim>\<open>.contains("images", [p.url]).limit(1).single()\<close> gives the first property whose image
  list holds the URL (no row is an error value, and \<^verbatim>\<open>matched\<close> is null). Only what is
  raised reaches the \<^verbatim>\<open>catch\<close>; the \<^verbatim>\<open>error\<close> of a reply is not read.
\<close>

fun reconcile_loop ::
  "env \<Rightarrow> photo list \<Rightarrow> world \<Rightarrow> (string \<times> string) list \<Rightarrow> (string \<times> string) list \<times> world" where
  "reconcile_loop e [] w reconciled = (reconciled, w)"
| "reconcile_loop e (p # ps) w reconciled =
     (let w1 = logged (ClientCall (SelectPropertyByImage (url p))) w
      in case client e (SelectPropertyByImage (url p)) of
           Throws m \<Rightarrow> reconcile_loop e ps w1 reconciled
         | ReturnsError m \<Rightarrow> reconcile_loop e ps w1 reconciled
         | Succeeds \<Rightarrow>
             (case find (\<lambda>r. url p \<in> set (images r)) (tbl_properties (db w1)) of
                None \<Rightarrow> reconcile_loop e ps w1 reconciled
              | Some matched \<Rightarrow>
                  if prop_id matched = [] then reconcile_loop e ps w1 reconciled
                  else
                    (let w2 = logged (ClientCall (UpdatePhotoProperty (photo_id p))) w1;
                         pushed = reconciled @ [(photo_id p, prop_id matched)]
                     in case client e (UpdatePhotoProperty (photo_id p)) of
                          Throws m \<Rightarrow> reconcile_loop e ps w2 reconciled
                        | ReturnsError m \<Rightarrow> reconcile_loop e ps w2 pushed
                        | Succeeds \<Rightarrow>
                            reconcile_loop e ps
                              (set_photo_property (photo_id p) (prop_id matched) w2) pushed)))"

text \<open>
  The handler: \<open>Inl m\<close> is the response 500 \<^verbatim>\<open>{error: m}\<close>, \<open>Inr r\<close> is
  \<^verbatim>\<open>{success: true, reconciled: r}\<close>. The fetch is
  \<^verbatim>\<open>.is("property_id", null).limit(200)\<close>; \<^verbatim>\<open>orphanPhotos || []\<close> makes a null
  \<^verbatim>\<open>data\<close> the empty batch.
\<close>

definition reconcile_photos_handler ::
  "env \<Rightarrow> world \<Rightarrow> (string + (string \<times> string) list) \<times> world" where
  "reconcile_photos_handler e w =
     (case getSupabaseOrThrow e of
        Some m \<Rightarrow> (Inl (message_or m ''Failed to reconcile photos''), w)
      | None \<Rightarrow>
          (let w1 = logged (ClientCall SelectOrphanPhotos) w
           in case client e SelectOrphanPhotos of
                Throws m \<Rightarrow> (Inl (message_or m ''Failed to reconcile photos''), w1)
              | ReturnsError m \<Rightarrow>
                  (case reconcile_loop e [] w1 [] of (r, w2) \<Rightarrow> (Inr r, w2))
              | Succeeds \<Rightarrow>
                  (case reconcile_loop e
                          (take 200 (filter (\<lambda>q. property_id q = None) (tbl_photos (db w1))))
                          w1 [] of
                     (r, w2) \<Rightarrow> (Inr r, w2))))"

section \<open>Validation of the image list\<close>

text \<open>
  \<^verbatim>\<open>validateImageUrls\<close>, the helper of the service: \<open>Inl m\<close> is \<^verbatim>\<open>throw new Error(m)\<close>.
  A value that is not an array passes.
\<close>

fun validate_each :: "jsval list \<Rightarrow> string + unit" where
  "validate_each [] = Inr ()"
| "validate_each (JStr img # imgs) =
     (if startsWith img ''data:''
      then Inl ''Base64 images are not allowed. Upload to ImageKit first.''
      else if \<not> startsWith img ''http://'' \<and> \<not> startsWith img ''https://''
      then Inl ''Images must be valid URLs''
      else validate_each imgs)"
| "validate_each (img # imgs) = Inl ''Images must be strings (ImageKit URLs)''"

definition validateImageUrls :: "jsval \<Rightarrow> string + unit" where
  "validateImageUrls imgs =
     (case imgs of
        JArr xs \<Rightarrow>
          if length xs > 25 then Inl ''Maximum 25 images per property'' else validate_each xs
      | _ \<Rightarrow> Inr ())"

text \<open>
  Modelled from the spec: \<^verbatim>\<open>insertPropertySchema\<close> (\<^verbatim>\<open>@shared/schema\<close>) is not among the
  sources; the service says of it "Images are validated by the Zod schema in
  insertPropertySchema". Its image rules are the spec's: at most 25 entries, every entry a
  string, no entry a data URI, every entry an absolute http/https URL; these are the
  checks of \<open>validateImageUrls\<close>. Its rules for the other fields are the parameter
  \<open>field_errors\<close>. The parse fails when either finds a violation.
\<close>

definition insertPropertySchema_safeParse ::
  "(record_any \<Rightarrow> string list) \<Rightarrow> record_any \<Rightarrow> string list + parsed_body" where
  "insertPropertySchema_safeParse field_errors body =
     (let image_errors =
            (case validateImageUrls (get_field body ''images'') of
               Inl m \<Rightarrow> [m]
             | Inr u \<Rightarrow> [])
      in if field_errors body @ image_errors \<noteq> []
         then Inl (field_errors body @ image_errors)
         else Inr \<lparr>parsed_data = body,
                   parsed_images =
                     (case get_field body ''images'' of
                        JArr xs \<Rightarrow> Some (concat (map (\<lambda>x. case x of JStr s \<Rightarrow> [s] | _ \<Rightarrow> []) xs))
                      | _ \<Rightarrow> None)\<rparr>)"

text \<open>
  The image-URL contract as the specification words it, on the entries of an image list:
  a list violates it when it has more than 25 entries, or an entry is not a string, or an
  entry begins with the data-URI scheme, or an entry is not an absolute http or https URL.
\<close>

definition is_string :: "jsval \<Rightarrow> bool" where
  "is_string x = (case x of JStr s \<Rightarrow> True | _ \<Rightarrow> False)"

definition is_data_uri :: "jsval \<Rightarrow> bool" where
  "is_data_uri x = (case x of JStr s \<Rightarrow> startsWith s ''data:'' | _ \<Rightarrow> False)"

definition is_absolute_http_url :: "jsval \<Rightarrow> bool" where
  "is_absolute_http_url x =
     (case x of JStr s \<Rightarrow> startsWith s ''http://'' \<or> startsWith s ''https://'' | _ \<Rightarrow> False)"

definition violates_image_contract :: "jsval list \<Rightarrow> bool" where
  "violates_image_contract xs =
     (length xs > 25
      \<or> list_ex (\<lambda>x. \<not> is_string x) xs
      \<or> list_ex is_data_uri xs
      \<or> list_ex (\<lambda>x. \<not> is_absolute_http_url x) xs)"

section \<open>A concrete environment\<close>

text \<open>
  An environment for examples. Its \<^verbatim>\<open>Number\<close> and \<^verbatim>\<open>String\<close> agree with JavaScript on
  unsigned decimal integers; no call fails; the listing query returns every row; a patch
  is merged into the columns of the row.
\<close>

fun digits_of :: "nat \<Rightarrow> string" where
  "digits_of n =
     (if n < 10 then [char_of (48 + n)] else digits_of (n div 10) @ [char_of (48 + n mod 10)])"

definition is_digit :: "char \<Rightarrow> bool" where
  "is_digit c = (48 \<le> (of_char c :: nat) \<and> (of_char c :: nat) \<le> 57)"

definition Number_decimal :: "string \<Rightarrow> jsnum" where
  "Number_decimal s =
     (if s \<noteq> [] \<and> list_all is_digit s
      then Fin (of_nat (foldl (\<lambda>n c. 10 * n + (of_char c - 48)) 0 s))
      else NaN)"

definition String_decimal :: "jsnum \<Rightarrow> string" where
  "String_decimal a =
     (case a of
        NaN \<Rightarrow> ''NaN''
      | PosInf \<Rightarrow> ''Infinity''
      | NegInf \<Rightarrow> ''-Infinity''
      | Fin q \<Rightarrow> (if 0 \<le> q \<and> q = of_int \<lfloor>q\<rfloor> then digits_of (nat \<lfloor>q\<rfloor>) else ''?''))"

definition example_env :: env where
  "example_env =
     \<lparr>js_Number = Number_decimal,
      js_String = String_decimal,
      ttl_PROPERTIES_LIST = 60,
      ttl_PROPERTY_DETAIL = 300,
      schema_safeParse = insertPropertySchema_safeParse (\<lambda>body. []),
      getSupabaseOrThrow = None,
      client = (\<lambda>c. Succeeds),
      sql_raises = (\<lambda>s. None),
      gen_random_uuid = (\<lambda>n. ''id-'' @ digits_of n),
      repo_raises = (\<lambda>c. None),
      find_all = (\<lambda>params pg lmt rows. (Some rows, Some (length rows))),
      patch_row = (\<lambda>patch p. p\<lparr>columns := patch @ columns p\<rparr>),
      bump_views = (\<lambda>p. p)\<rparr>"

definition empty_world :: world where
  "empty_world =
     \<lparr>db = \<lparr>tbl_properties = [], tbl_photos = [], serial = 0\<rparr>,
      cache = (\<lambda>k. None),
      ownership_cache = (\<lambda>k. None),
      trace = []\<rparr>"

definition no_filters :: GetPropertiesParams where
  "no_filters =
     \<lparr>propertyType = None, city = None, minPrice = None, maxPrice = None, status = None,
      ownerId = None, page = None, limit = None\<rparr>"

section \<open>Reading the trace\<close>






text \<open>The fields that the listing cache key joins after its prefix, and strings without the
  separator.\<close>

definition colon_free :: "string \<Rightarrow> bool" where
  "colon_free s = (CHR '':'' \<notin> set s)"

definition key_fields :: "env \<Rightarrow> GetPropertiesParams \<Rightarrow> string list" where
  "key_fields e params =
     [nullish_or (propertyType params) [],
      nullish_or (city params) [],
      nullish_or (minPrice params) [],
      nullish_or (maxPrice params) [],
      nullish_or (status params) ''active'',
      nullish_or (ownerId params) [],
      js_String e (getProperties_page e params),
      js_String e (getProperties_limit e params)]"


section \<open>Reading the reconciliation\<close>

text \<open>
  What the lookup of the loop finds for a photo (the id of the first property whose image
  list holds the photo's URL, if that id is truthy), what one iteration does to a photo row
  when lookup and update succeed, and the associations a batch yields then.
\<close>

definition matched_id :: "property list \<Rightarrow> photo \<Rightarrow> string option" where
  "matched_id props p =
     (case find (\<lambda>r. url p \<in> set (images r)) props of
        None \<Rightarrow> None
      | Some m \<Rightarrow> if prop_id m = [] then None else Some (prop_id m))"

definition associate_step :: "property list \<Rightarrow> photo \<Rightarrow> photo \<Rightarrow> photo" where
  "associate_step props p q =
     (case matched_id props p of
        None \<Rightarrow> q
      | Some pid \<Rightarrow> if photo_id q = photo_id p then q\<lparr>property_id := Some pid\<rparr> else q)"

definition associations :: "property list \<Rightarrow> photo list \<Rightarrow> (string \<times> string) list" where
  "associations props ps =
     concat (map (\<lambda>p. case matched_id props p of None \<Rightarrow> [] | Some pid \<Rightarrow> [(photo_id p, pid)]) ps)"


section \<open>Example inputs\<close>

definition colon_in_type :: GetPropertiesParams where
  "colon_in_type = no_filters\<lparr>propertyType := Some ''a:b'', city := Some ''c''\<rparr>"

definition colon_in_city :: GetPropertiesParams where
  "colon_in_city = no_filters\<lparr>propertyType := Some ''a'', city := Some ''b:c''\<rparr>"

definition example_row :: property where
  "example_row = \<lparr>prop_id = ''p1'', owner_id = Some ''alice'', images = [], columns = []\<rparr>"

definition stale_world :: world where
  "stale_world = empty_world\<lparr>cache := cache_set ''property:p1'' (PropertyEntry example_row) 300 0 (\<lambda>k. None)\<rparr>"

definition owned_world :: world where
  "owned_world = empty_world\<lparr>db := \<lparr>tbl_properties = [example_row], tbl_photos = [], serial = 0\<rparr>\<rparr>"

definition failing_views_env :: env where
  "failing_views_env = example_env\<lparr>repo_raises := (\<lambda>c. case c of IncrementPropertyViews i \<Rightarrow> Some ''store fault'' | _ \<Rightarrow> None)\<rparr>"



definition body_with_images :: "jsval list \<Rightarrow> record_any" where
  "body_with_images xs =
     [(''title'', JStr ''Test Property''), (''address'', JStr ''123 Test Lane''),
      (''city'', JStr ''Testville''), (''price'', JStr ''1000.00''), (''images'', JArr xs)]"




definition listed_property :: property where
  "listed_property = \<lparr>prop_id = ''p1'', owner_id = Some ''alice'',
      images = [''https://cdn/3.jpg''], columns = []\<rparr>"

definition orphan_photo :: "nat \<Rightarrow> photo" where
  "orphan_photo n = \<lparr>photo_id = ''ph-'' @ digits_of n, imagekit_file_id = ''https://cdn/3.jpg'',
      url = ''https://cdn/3.jpg'', thumbnail_url = ''https://cdn/3.jpg'', category = ''property'',
      uploader_id = None, property_id = None, metadata = []\<rparr>"

definition orphans_world :: "nat \<Rightarrow> world" where
  "orphans_world n = empty_world\<lparr>db := \<lparr>tbl_properties = [listed_property],
      tbl_photos = map orphan_photo [0 ..< n], serial = 0\<rparr>\<rparr>"

definition fetch_error_env :: env where
  "fetch_error_env = example_env\<lparr>client :=
     (\<lambda>c. if c = SelectOrphanPhotos then ReturnsError ''connection refused'' else Succeeds)\<rparr>"

definition update_error_env :: env where
  "update_error_env = example_env\<lparr>client :=
     (\<lambda>c. case c of UpdatePhotoProperty i \<Rightarrow> ReturnsError ''permission denied'' | _ \<Rightarrow> Succeeds)\<rparr>"



section \<open>Basic facts\<close>

declare digits_of.simps [simp del]

lemma db_logged: "db (logged ev w) = db w"
  by (simp add: logged_def)

lemma cache_logged: "cache (logged ev w) = cache w"
  by (simp add: logged_def)

lemma example_env_reliable:
  "getSupabaseOrThrow example_env = None" "client example_env c = Succeeds"
  by (simp_all add: example_env_def)


section \<open>Pagination\<close>







section \<open>The listing cache key\<close>

text \<open>
  As long as no field holds the separator, the key determines every field: equal keys
  mean equal fields.
\<close>

lemma split_at_first_colon:
  "colon_free a \<Longrightarrow> colon_free b \<Longrightarrow> a @ CHR '':'' # r = b @ CHR '':'' # s \<Longrightarrow> a = b \<and> r = s"
proof (induction a arbitrary: b)
  case Nil
  then show ?case by (cases b) (auto simp: colon_free_def)
next
  case (Cons x a)
  then show ?case by (cases b) (auto simp: colon_free_def)
qed

lemma join_colon_free_injective:
  "length xs = length ys \<Longrightarrow> list_all colon_free xs \<Longrightarrow> list_all colon_free ys
   \<Longrightarrow> join '':'' xs = join '':'' ys \<Longrightarrow> xs = ys"
proof (induction xs ys rule: list_induct2)
  case Nil
  show ?case by simp
next
  case (Cons x xs y ys)
  show ?case
  proof (cases xs)
    case Nil
    with Cons show ?thesis by simp
  next
    case (Cons x' xs')
    then obtain y' ys' where ys: "ys = y' # ys'"
      using Cons.hyps by (cases ys) auto
    from Cons.prems local.Cons ys
    have "x = y \<and> join '':'' xs = join '':'' ys"
      using split_at_first_colon [of x y "join '':'' xs" "join '':'' ys"] by simp
    with Cons.IH Cons.prems show ?thesis by simp
  qed
qed

lemma getProperties_cacheKey_injective_without_colons:
  assumes "list_all colon_free (key_fields e p)" and "list_all colon_free (key_fields e q)"
      and "getProperties_cacheKey e p = getProperties_cacheKey e q"
  shows "key_fields e p = key_fields e q"
proof -
  have k: "getProperties_cacheKey e r = join '':'' (''properties'' # key_fields e r)" for r
    by (simp add: getProperties_cacheKey_def key_fields_def)
  have "''properties'' # key_fields e p = ''properties'' # key_fields e q"
  proof (rule join_colon_free_injective)
    show "length (''properties'' # key_fields e p) = length (''properties'' # key_fields e q)"
      by (simp add: key_fields_def)
    show "list_all colon_free (''properties'' # key_fields e p)"
      using assms(1) by (simp add: colon_free_def)
    show "list_all colon_free (''properties'' # key_fields e q)"
      using assms(2) by (simp add: colon_free_def)
    show "join '':'' (''properties'' # key_fields e p) = join '':'' (''properties'' # key_fields e q)"
      using assms(3) k by simp
  qed
  then show ?thesis by simp
qed

text \<open>
  Claim C4. The cache key of \<^verbatim>\<open>getProperties\<close> is meant to tell every two filter tuples
  apart. The key joins the fields with ":" and leaves a ":" inside a field as it is, so
  the tuple with propertyType "a:b" and city "c" and the tuple with propertyType "a" and
  city "b:c" have one key, and the second call is answered from the entry the first call
  stored: its trace ends with the cache read and has no second store call.
\<close>

theorem getProperties_cacheKey_collision:
  "getProperties_cacheKey example_env colon_in_type = ''properties:a:b:c:::active::1:20''
   \<and> getProperties_cacheKey example_env colon_in_city = ''properties:a:b:c:::active::1:20''
   \<and> propertyType colon_in_type \<noteq> propertyType colon_in_city
   \<and> city colon_in_type \<noteq> city colon_in_city
   \<and> trace (snd (getProperties example_env 1 colon_in_city
                   (snd (getProperties example_env 0 colon_in_type empty_world))))
       = [CacheGet ''properties:a:b:c:::active::1:20'',
          RepoCall FindAllProperties,
          CacheSet ''properties:a:b:c:::active::1:20'',
          CacheGet ''properties:a:b:c:::active::1:20'']"
  by code_simp


section \<open>Lookups of absent properties\<close>

text \<open>
  Claim C10 as stated does not hold for every absent id: an id that is absent from the
  store is still answered from the cache while a live entry
  for it exists: the lookup does not return null then.
\<close>

theorem getPropertyById_stale_hit:
  "tbl_properties (db stale_world) = []
   \<and> fst (getPropertyById example_env 10 ''p1'' stale_world) = Inr (Some (PropertyEntry example_row))"
  by code_simp

lemma cache_get_miss_cache:
  "fst (cache_get k now c) = None \<Longrightarrow> snd (cache_get k now c) = c(k := None)"
  by (auto simp: cache_get_def split: option.splits if_splits)

lemma cache_get_after_miss:
  "fst (cache_get k now2 (c(k := None))) = None \<and> snd (cache_get k now2 (c(k := None))) = c(k := None)"
  by (simp add: cache_get_def)

lemma getPropertyById_miss_absent:
  assumes absent: "find (\<lambda>p. prop_id p = i) (tbl_properties (db w)) = None"
      and miss: "fst (cache_get (''property:'' @ i) now (cache w)) = None"
      and ok: "repo_raises e (FindPropertyById i) = None"
  shows "getPropertyById e now i w =
           (Inr None,
            w\<lparr>cache := (cache w)((''property:'' @ i) := None),
              trace := trace w @ [CacheGet (''property:'' @ i), RepoCall (FindPropertyById i)]\<rparr>)"
proof -
  obtain c where c: "cache_get (''property:'' @ i) now (cache w) = (None, c)"
    using miss by (metis prod.collapse)
  have "c = (cache w)((''property:'' @ i) := None)"
    using cache_get_miss_cache [OF miss] c by simp
  then show ?thesis
    using c absent ok
    by (simp add: getPropertyById_def do_cache_get_def repository_findPropertyById_def
          logged_def Let_def)
qed

text \<open>
  Claim C10 (as amended). For every id that is absent from the store and has no live
  cache entry, \<^verbatim>\<open>getPropertyById\<close> reaches the store, returns null and writes no cache
  entry: the store is unchanged and the only change of the cache is that an expired entry
  under \<^verbatim>\<open>property:<id>\<close> is gone. Every later call for that id reaches the store again
  and returns null.
\<close>

theorem getPropertyById_never_caches_absence:
  assumes absent: "find (\<lambda>p. prop_id p = i) (tbl_properties (db w)) = None"
      and miss: "fst (cache_get (''property:'' @ i) now (cache w)) = None"
      and ok: "repo_raises e (FindPropertyById i) = None"
  shows "\<exists>w'. getPropertyById e now i w = (Inr None, w')
           \<and> db w' = db w
           \<and> cache w' = (cache w)((''property:'' @ i) := None)
           \<and> trace w' = trace w @ [CacheGet (''property:'' @ i), RepoCall (FindPropertyById i)]
           \<and> (\<forall>now2. \<exists>w''. getPropertyById e now2 i w' = (Inr None, w'')
                 \<and> cache w'' = cache w'
                 \<and> trace w'' = trace w' @ [CacheGet (''property:'' @ i), RepoCall (FindPropertyById i)])"
proof -
  let ?k = "''property:'' @ i"
  let ?w' = "w\<lparr>cache := (cache w)(?k := None),
              trace := trace w @ [CacheGet ?k, RepoCall (FindPropertyById i)]\<rparr>"
  have 1: "getPropertyById e now i w = (Inr None, ?w')"
    by (rule getPropertyById_miss_absent [OF absent miss ok])
  have 2: "getPropertyById e now2 i ?w' =
         (Inr None, ?w'\<lparr>cache := (cache ?w')(?k := None),
                        trace := trace ?w' @ [CacheGet ?k, RepoCall (FindPropertyById i)]\<rparr>)" for now2
    by (rule getPropertyById_miss_absent) (use absent ok in \<open>simp_all add: cache_get_def\<close>)
  show ?thesis
    apply (rule exI [of _ ?w'])
    using 1 2 by simp
qed

theorem getPropertyById_never_caches_absence_witness:
  "find (\<lambda>p. prop_id p = ''p1'') (tbl_properties (db empty_world)) = None
   \<and> fst (cache_get (''property:'' @ ''p1'') 0 (cache empty_world)) = None
   \<and> repo_raises example_env (FindPropertyById ''p1'') = None
   \<and> (\<exists>w'. getPropertyById example_env 0 ''p1'' empty_world = (Inr None, w')
         \<and> db w' = db empty_world
         \<and> trace w' = [CacheGet ''property:p1'', RepoCall (FindPropertyById ''p1'')])"
proof -
  have a: "find (\<lambda>p. prop_id p = ''p1'') (tbl_properties (db empty_world)) = None"
    by (simp add: empty_world_def)
  have m: "fst (cache_get (''property:'' @ ''p1'') 0 (cache empty_world)) = None"
    by (simp add: cache_get_def empty_world_def)
  have ok: "repo_raises example_env (FindPropertyById ''p1'') = None"
    by (simp add: example_env_def)
  have t: "trace empty_world = []" by (simp add: empty_world_def)
  show ?thesis
    using getPropertyById_never_caches_absence [OF a m ok] a m ok t by auto
qed


section \<open>Ownership enforcement\<close>

text \<open>
  Claim C3 as stated does not hold for every supplied requester id. The ownership check is \<^verbatim>\<open>userId && property.owner_id !== userId\<close>: a requester id that
  is supplied as the empty string is falsy, the check is skipped, and the update and the
  delete go through although the stored owner differs.
\<close>

theorem updateProperty_empty_requester_mutates:
  "tbl_properties (db owned_world) = [example_row]
   \<and> prop_id example_row = ''p1''
   \<and> owner_id example_row = Some ''alice''
   \<and> fst (updateProperty example_env ''p1'' [(''title'', JStr ''x'')] (Some []) owned_world)
       = Inr (Some (example_row\<lparr>columns := [(''title'', JStr ''x'')]\<rparr>))
   \<and> trace (snd (updateProperty example_env ''p1'' [(''title'', JStr ''x'')] (Some []) owned_world))
       = [RepoCall (FindPropertyById ''p1''), RepoCall (RepoUpdateProperty ''p1''),
          CacheInvalidate ''property:p1'', CacheInvalidate ''properties:'',
          OwnershipInvalidate ''property'' ''p1'']
   \<and> fst (deleteProperty example_env ''p1'' (Some []) owned_world) = Inr ()
   \<and> tbl_properties (db (snd (deleteProperty example_env ''p1'' (Some []) owned_world))) = []"
  by code_simp

text \<open>
  Claim C3 (as amended). For every property present in the store and every requester id
  that is supplied as a non-empty string and differs from the stored owner,
  \<^verbatim>\<open>updateProperty\<close> and \<^verbatim>\<open>deleteProperty\<close> fail with the Unauthorized fault and the state
  is as before but for the logged read of the row: no update or delete call on the store,
  no cache invalidation.
\<close>

theorem unauthorized_performs_no_mutation:
  assumes present: "find (\<lambda>p. prop_id p = i) (tbl_properties (db w)) = Some prop"
      and ok: "repo_raises e (FindPropertyById i) = None"
      and supplied: "u \<noteq> []"
      and differs: "owner_id prop \<noteq> Some u"
  shows "updateProperty e i updateData (Some u) w
           = (Inl ''Unauthorized: You do not own this property'',
              w\<lparr>trace := trace w @ [RepoCall (FindPropertyById i)]\<rparr>)
       \<and> deleteProperty e i (Some u) w
           = (Inl ''Unauthorized: You do not own this property'',
              w\<lparr>trace := trace w @ [RepoCall (FindPropertyById i)]\<rparr>)"
  using assms
  by (simp add: updateProperty_def deleteProperty_def repository_findPropertyById_def
        logged_def truthy_str_def)

theorem unauthorized_performs_no_mutation_witness:
  "find (\<lambda>p. prop_id p = ''p1'') (tbl_properties (db owned_world)) = Some example_row
   \<and> repo_raises example_env (FindPropertyById ''p1'') = None
   \<and> ''bob'' \<noteq> []
   \<and> owner_id example_row \<noteq> Some ''bob''
   \<and> updateProperty example_env ''p1'' [(''title'', JStr ''x'')] (Some ''bob'') owned_world
           = (Inl ''Unauthorized: You do not own this property'',
              owned_world\<lparr>trace := trace owned_world @ [RepoCall (FindPropertyById ''p1'')]\<rparr>)
   \<and> deleteProperty example_env ''p1'' (Some ''bob'') owned_world
           = (Inl ''Unauthorized: You do not own this property'',
              owned_world\<lparr>trace := trace owned_world @ [RepoCall (FindPropertyById ''p1'')]\<rparr>)"
proof -
  have present: "find (\<lambda>p. prop_id p = ''p1'') (tbl_properties (db owned_world)) = Some example_row"
    by (simp add: owned_world_def example_row_def)
  have ok: "repo_raises example_env (FindPropertyById ''p1'') = None"
    by (simp add: example_env_def)
  have supplied: "''bob'' \<noteq> []" by simp
  have differs: "owner_id example_row \<noteq> Some ''bob''"
    by (simp add: example_row_def)
  show ?thesis
    using unauthorized_performs_no_mutation [OF present ok supplied differs] present ok differs
    by simp
qed


section \<open>Recording a view\<close>

text \<open>
  Claim C9 as stated does not hold: a fault raised by the store-side increment leaves \<^verbatim>\<open>recordPropertyView\<close> as it was
  raised, and the route handler answers 500.
\<close>

theorem recordPropertyView_fault_propagates:
  "fst (recordPropertyView failing_views_env ''p1'' owned_world) = Inl ''store fault''
   \<and> fst (post_view_handler failing_views_env ''p1'' owned_world) = Response 500 ''Failed to record view''"
  by code_simp

text \<open>
  Claim C9 (as amended). \<^verbatim>\<open>recordPropertyView\<close> makes exactly one call, the store-side
  increment, never touches the cache, and has no fault handling of its own: a fault the
  increment raises propagates to the caller, where the \<^verbatim>\<open>POST /:id/view\<close> handler turns it
  into the response 500; the call completes normally exactly when the increment does.
\<close>

theorem recordPropertyView_passes_outcome_on:
  "(case repo_raises e (IncrementPropertyViews i) of
      Some m \<Rightarrow>
        recordPropertyView e i w = (Inl m, w\<lparr>trace := trace w @ [RepoCall (IncrementPropertyViews i)]\<rparr>)
        \<and> fst (post_view_handler e i w) = Response 500 ''Failed to record view''
    | None \<Rightarrow>
        fst (recordPropertyView e i w) = Inr ()
        \<and> fst (post_view_handler e i w) = Response 200 ''View recorded'')
   \<and> trace (snd (recordPropertyView e i w)) = trace w @ [RepoCall (IncrementPropertyViews i)]
   \<and> cache (snd (recordPropertyView e i w)) = cache w"
  by (simp add: recordPropertyView_def post_view_handler_def repository_incrementPropertyViews_def
        logged_def split: option.splits)


section \<open>Invalidation after a write\<close>


















section \<open>Atomic creation\<close>





lemma call_atomic_error: "fst (call_atomic body d) = Inl m \<Longrightarrow> snd (call_atomic body d) = d"
  by (auto simp: call_atomic_def split: prod.splits sum.splits)








section \<open>Validation before the store\<close>

lemma validate_each_rejects:
  "list_ex (\<lambda>x. \<not> is_string x) xs \<or> list_ex is_data_uri xs
     \<or> list_ex (\<lambda>x. \<not> is_absolute_http_url x) xs
   \<Longrightarrow> \<exists>m. validate_each xs = Inl m"
  by (induction xs rule: validate_each.induct)
     (auto simp: is_string_def is_data_uri_def is_absolute_http_url_def)

lemma validateImageUrls_rejects:
  "violates_image_contract xs \<Longrightarrow> \<exists>m. validateImageUrls (JArr xs) = Inl m"
  using validate_each_rejects [of xs]
  by (auto simp: validateImageUrls_def violates_image_contract_def)

lemma createProperty_parse_failure:
  "schema_safeParse e body = Inl errors
   \<Longrightarrow> createProperty e body userId w
         = (Inl (case errors of [] \<Rightarrow> ''Invalid input'' | m # ms \<Rightarrow> m), w)"
  by (simp add: createProperty_def)

text \<open>
  Claim C2. For every body whose image list violates the image-URL contract (more than
  25 entries, or an entry that is not a string, or that begins with the data-URI scheme,
  or that is not an absolute http or https URL), \<^verbatim>\<open>createProperty\<close> returns a validation
  error as a result value and the state is exactly as before: no store call is made and
  nothing is mutated.
\<close>

theorem createProperty_rejects_bad_images:
  assumes imgs: "get_field body ''images'' = JArr xs"
      and bad: "violates_image_contract xs"
  shows "\<exists>m. createProperty (e\<lparr>schema_safeParse := insertPropertySchema_safeParse field_errors\<rparr>)
                 body userId w = (Inl m, w)"
proof -
  obtain m where "validateImageUrls (JArr xs) = Inl m"
    using validateImageUrls_rejects [OF bad] by blast
  then have "insertPropertySchema_safeParse field_errors body = Inl (field_errors body @ [m])"
    using imgs by (simp add: insertPropertySchema_safeParse_def)
  then show ?thesis
    by (simp add: createProperty_parse_failure)
qed

text \<open>The examples of the specification.\<close>

lemma contract_example_26_entries: "violates_image_contract (replicate 26 (JStr ''https://cdn/x.jpg''))"
  by (simp add: violates_image_contract_def)
lemma contract_example_data_uri: "violates_image_contract [JStr ''data:image/png;base64,AAAA'']"
  by (simp add: violates_image_contract_def is_data_uri_def startsWith_def)
lemma contract_example_ftp: "violates_image_contract [JStr ''ftp://x'']"
  by (simp add: violates_image_contract_def is_absolute_http_url_def startsWith_def)
lemma contract_example_https: "\<not> violates_image_contract [JStr ''https://cdn/x.jpg'']"
  by (simp add: violates_image_contract_def is_absolute_http_url_def is_data_uri_def is_string_def startsWith_def)

theorem createProperty_rejects_bad_images_witness:
  "get_field (body_with_images [JStr ''ftp://x'']) ''images'' = JArr [JStr ''ftp://x'']
   \<and> violates_image_contract [JStr ''ftp://x'']
   \<and> createProperty example_env (body_with_images [JStr ''ftp://x'']) ''user_abc'' empty_world
        = (Inl ''Images must be valid URLs'', empty_world)"
proof -
  have i: "get_field (body_with_images [JStr ''ftp://x'']) ''images'' = JArr [JStr ''ftp://x'']"
    by (simp add: get_field_def body_with_images_def)
  have e: "example_env\<lparr>schema_safeParse := insertPropertySchema_safeParse (\<lambda>body. [])\<rparr> = example_env"
    by (simp add: example_env_def)
  have f: "fst (createProperty example_env (body_with_images [JStr ''ftp://x'']) ''user_abc'' empty_world)
             = Inl ''Images must be valid URLs''"
    by code_simp
  from createProperty_rejects_bad_images [OF i contract_example_ftp, where e = example_env and field_errors = "\<lambda>body. []"
      and userId = "''user_abc''" and w = empty_world]
  obtain m where "createProperty example_env (body_with_images [JStr ''ftp://x'']) ''user_abc'' empty_world
        = (Inl m, empty_world)"
    unfolding e by blast
  with f i contract_example_ftp show ?thesis by simp
qed


section \<open>Reconciliation of orphan photos\<close>

text \<open>
  A fault of the handler is exactly a raised one: the client is not configured or the
  initial fetch raises. Nothing raised inside the loop leaves it.
\<close>

lemma reconcile_fault_iff_raised:
  "(\<exists>m. fst (reconcile_photos_handler e w) = Inl m)
     \<longleftrightarrow> (getSupabaseOrThrow e \<noteq> None \<or> (\<exists>m. client e SelectOrphanPhotos = Throws m))"
  by (cases "client e SelectOrphanPhotos")
     (auto simp: reconcile_photos_handler_def Let_def split: option.splits prod.splits)

text \<open>A fetch that returns an error value is answered as a success with no associations.\<close>

lemma reconcile_fetch_error_is_success:
  "getSupabaseOrThrow e = None \<Longrightarrow> client e SelectOrphanPhotos = ReturnsError m
   \<Longrightarrow> fst (reconcile_photos_handler e w) = Inr []"
  by (simp add: reconcile_photos_handler_def Let_def)

text \<open>
  Claim C6. The sweep is to fail if and only if the initial orphan fetch fails, and to
  return the successful associations. The store client reports a failure as the
  \<^verbatim>\<open>error\<close> of its reply, which the handler never reads. With one orphan photo whose URL
  is in a property's image list: when the fetch returns an error the handler answers
  success with an empty list, not a fault; when the update of the photo returns an error
  the pair is reported as reconciled although the photo is still an orphan, and the next
  pass reports it again.
\<close>

theorem reconcile_returned_errors_unreported:
  "fst (reconcile_photos_handler example_env (orphans_world 1)) = Inr [(''ph-0'', ''p1'')]
   \<and> fst (reconcile_photos_handler fetch_error_env (orphans_world 1)) = Inr []
   \<and> fst (reconcile_photos_handler update_error_env (orphans_world 1)) = Inr [(''ph-0'', ''p1'')]
   \<and> map property_id
        (tbl_photos (db (snd (reconcile_photos_handler update_error_env (orphans_world 1))))) = [None]
   \<and> fst (reconcile_photos_handler update_error_env
            (snd (reconcile_photos_handler update_error_env (orphans_world 1))))
        = Inr [(''ph-0'', ''p1'')]"
  by code_simp


section \<open>Running the reconciliation twice\<close>

lemma reconcile_loop_unmatched:
  "list_all (\<lambda>p. matched_id (tbl_properties (db w)) p = None) ps
   \<Longrightarrow> fst (reconcile_loop e ps w acc) = acc
     \<and> db (snd (reconcile_loop e ps w acc)) = db w"
  supply db_logged [simp]
proof (induction ps arbitrary: w acc)
  case Nil
  show ?case by simp
next
  case (Cons p ps)
  let ?w1 = "logged (ClientCall (SelectPropertyByImage (url p))) w"
  have rest: "list_all (\<lambda>p. matched_id (tbl_properties (db ?w1)) p = None) ps"
    using Cons.prems by simp
  have un: "matched_id (tbl_properties (db w)) p = None"
    using Cons.prems by simp
  have step: "reconcile_loop e (p # ps) w acc = reconcile_loop e ps ?w1 acc"
    using un
    by (cases "client e (SelectPropertyByImage (url p))")
       (auto simp: Let_def matched_id_def split: option.splits if_splits)
  show ?case
    using Cons.IH [OF rest, of acc] step by simp
qed

lemma reconcile_loop_reliable:
  assumes look: "\<And>u. client e (SelectPropertyByImage u) = Succeeds"
      and upd: "\<And>i. client e (UpdatePhotoProperty i) = Succeeds"
  shows "fst (reconcile_loop e ps w acc) = acc @ associations (tbl_properties (db w)) ps
       \<and> tbl_properties (db (snd (reconcile_loop e ps w acc))) = tbl_properties (db w)
       \<and> tbl_photos (db (snd (reconcile_loop e ps w acc)))
           = map (fold (associate_step (tbl_properties (db w))) ps) (tbl_photos (db w))"
  supply db_logged [simp]
proof (induction ps arbitrary: w acc)
  case Nil
  show ?case by (simp add: associations_def)
next
  case (Cons p ps)
  let ?props = "tbl_properties (db w)"
  let ?w1 = "logged (ClientCall (SelectPropertyByImage (url p))) w"
  show ?case
  proof (cases "matched_id ?props p")
    case None
    have step: "reconcile_loop e (p # ps) w acc = reconcile_loop e ps ?w1 acc"
      using None look
      by (auto simp: Let_def matched_id_def split: option.splits if_splits)
    have id: "associate_step ?props p = (\<lambda>q. q)"
      using None by (simp add: associate_step_def fun_eq_iff)
    show ?thesis
      using Cons.IH [of ?w1 acc] step None id
      by (simp add: associations_def)
  next
    case (Some pid)
    let ?w2 = "logged (ClientCall (UpdatePhotoProperty (photo_id p))) ?w1"
    let ?w3 = "set_photo_property (photo_id p) pid ?w2"
    have step: "reconcile_loop e (p # ps) w acc = reconcile_loop e ps ?w3 (acc @ [(photo_id p, pid)])"
      using Some look upd
      by (auto simp: Let_def matched_id_def split: option.splits if_splits)
    have props: "tbl_properties (db ?w3) = ?props"
      by (simp add: set_photo_property_def)
    have photos: "tbl_photos (db ?w3) = map (associate_step ?props p) (tbl_photos (db w))"
      using Some by (simp add: set_photo_property_def associate_step_def)
    show ?thesis
      using Cons.IH [of ?w3 "acc @ [(photo_id p, pid)]"] step Some props photos
      by (simp add: associations_def o_def)
  qed
qed

lemma associate_step_keeps:
  "photo_id (associate_step props p q) = photo_id q \<and> url (associate_step props p q) = url q
   \<and> (property_id q \<noteq> None \<longrightarrow> property_id (associate_step props p q) \<noteq> None)"
  by (simp add: associate_step_def split: option.splits)

lemma fold_associate_keeps:
  "photo_id (fold (associate_step props) ps q) = photo_id q
   \<and> url (fold (associate_step props) ps q) = url q
   \<and> (property_id q \<noteq> None \<longrightarrow> property_id (fold (associate_step props) ps q) \<noteq> None)"
proof (induction ps arbitrary: q)
  case Nil
  show ?case by simp
next
  case (Cons p ps)
  show ?case
    using Cons.IH [of "associate_step props p q"] associate_step_keeps [of props p q]
    by simp
qed

text \<open>A photo that is still an orphan after the loop was an orphan before, is unchanged, and
  no photo of the batch with a match has its id.\<close>

lemma fold_associate_orphan:
  "property_id (fold (associate_step props) ps q) = None
   \<Longrightarrow> fold (associate_step props) ps q = q
     \<and> list_all (\<lambda>p. matched_id props p = None \<or> photo_id p \<noteq> photo_id q) ps"
proof (induction ps arbitrary: q)
  case Nil
  show ?case by simp
next
  case (Cons p ps)
  let ?q1 = "associate_step props p q"
  from Cons.prems have o: "property_id (fold (associate_step props) ps ?q1) = None" by simp
  have q1: "property_id ?q1 = None"
    using fold_associate_keeps [of props ps ?q1] o by auto
  then have same: "?q1 = q" and ok: "matched_id props p = None \<or> photo_id p \<noteq> photo_id q"
    by (auto simp: associate_step_def split: option.splits if_splits)
  from Cons.IH [OF o] same ok show ?case by simp
qed

lemma fold_associate_other:
  "list_all (\<lambda>p. photo_id p \<noteq> photo_id q) ps \<Longrightarrow> fold (associate_step props) ps q = q"
  by (induction ps arbitrary: q) (auto simp: associate_step_def split: option.splits)

lemma fold_associate_hit:
  "list_ex (\<lambda>p. photo_id p = photo_id q \<and> matched_id props p \<noteq> None) ps
   \<Longrightarrow> property_id (fold (associate_step props) ps q) \<noteq> None"
proof (induction ps arbitrary: q)
  case Nil
  then show ?case by simp
next
  case (Cons p ps)
  show ?case
  proof (cases "photo_id p = photo_id q \<and> matched_id props p \<noteq> None")
    case True
    then have "property_id (associate_step props p q) \<noteq> None"
      by (auto simp: associate_step_def)
    then show ?thesis
      using fold_associate_keeps [of props ps "associate_step props p q"] by simp
  next
    case False
    with Cons.prems have "list_ex (\<lambda>p'. photo_id p' = photo_id (associate_step props p q) \<and> matched_id props p' \<noteq> None) ps"
      using associate_step_keeps [of props p q] by auto
    from Cons.IH [OF this] show ?thesis by simp
  qed
qed


lemma associations_member:
  "(x, pid) \<in> set (associations props ps)
   \<Longrightarrow> \<exists>p \<in> set ps. x = photo_id p \<and> matched_id props p = Some pid"
  by (auto simp: associations_def split: option.splits)

lemma reconcile_loop_ids:
  "x \<in> fst ` set (fst (reconcile_loop e ps w acc))
   \<Longrightarrow> x \<in> fst ` set acc
       \<or> (\<exists>p \<in> set ps. x = photo_id p \<and> matched_id (tbl_properties (db w)) p \<noteq> None)"
  supply db_logged [simp]
proof (induction ps arbitrary: w acc)
  case Nil
  then show ?case by simp
next
  case (Cons p ps)
  let ?goal = ?case
  let ?props = "tbl_properties (db w)"
  let ?w1 = "logged (ClientCall (SelectPropertyByImage (url p))) w"
  let ?w2 = "logged (ClientCall (UpdatePhotoProperty (photo_id p))) ?w1"
  have skip: "x \<in> fst ` set (fst (reconcile_loop e ps w' acc)) \<Longrightarrow> tbl_properties (db w') = ?props
        \<Longrightarrow> ?goal" for w'
    using Cons.IH [of w' acc] by auto
  show ?case
  proof (cases "matched_id ?props p")
    case None
    have "reconcile_loop e (p # ps) w acc = reconcile_loop e ps ?w1 acc"
      using None
      by (cases "client e (SelectPropertyByImage (url p))")
         (auto simp: Let_def matched_id_def split: option.splits if_splits)
    with Cons.prems show ?thesis using skip [of ?w1] by simp
  next
    case (Some pid)
    have push: "x \<in> fst ` set (fst (reconcile_loop e ps w' (acc @ [(photo_id p, pid)])))
        \<Longrightarrow> tbl_properties (db w') = ?props \<Longrightarrow> ?goal" for w'
      using Cons.IH [of w' "acc @ [(photo_id p, pid)]"] Some by auto
    consider (a) "reconcile_loop e (p # ps) w acc = reconcile_loop e ps ?w1 acc"
      | (b) "reconcile_loop e (p # ps) w acc = reconcile_loop e ps ?w2 acc"
      | (c) "reconcile_loop e (p # ps) w acc = reconcile_loop e ps ?w2 (acc @ [(photo_id p, pid)])"
      | (d) "reconcile_loop e (p # ps) w acc
               = reconcile_loop e ps (set_photo_property (photo_id p) pid ?w2) (acc @ [(photo_id p, pid)])"
      using Some
      by (cases "client e (SelectPropertyByImage (url p))";
          cases "client e (UpdatePhotoProperty (photo_id p))")
         (auto simp: Let_def matched_id_def split: option.splits if_splits)
    then show ?thesis
    proof cases
      case a with Cons.prems show ?thesis using skip [of ?w1] by simp
    next
      case b with Cons.prems show ?thesis using skip [of ?w2] by simp
    next
      case c with Cons.prems show ?thesis using push [of ?w2] by simp
    next
      case d with Cons.prems show ?thesis
        using push [of "set_photo_property (photo_id p) pid ?w2"]
        by (simp add: set_photo_property_def)
    qed
  qed
qed

lemma reconcile_handler_reliable:
  assumes cfg: "getSupabaseOrThrow e = None"
      and fetch: "client e SelectOrphanPhotos = Succeeds"
      and look: "\<And>u. client e (SelectPropertyByImage u) = Succeeds"
      and upd: "\<And>i. client e (UpdatePhotoProperty i) = Succeeds"
  shows "fst (reconcile_photos_handler e w)
           = Inr (associations (tbl_properties (db w))
                    (take 200 (filter (\<lambda>q. property_id q = None) (tbl_photos (db w)))))
       \<and> tbl_properties (db (snd (reconcile_photos_handler e w))) = tbl_properties (db w)
       \<and> tbl_photos (db (snd (reconcile_photos_handler e w)))
           = map (fold (associate_step (tbl_properties (db w)))
                    (take 200 (filter (\<lambda>q. property_id q = None) (tbl_photos (db w)))))
               (tbl_photos (db w))"
  supply db_logged [simp]
proof -
  let ?w1 = "logged (ClientCall SelectOrphanPhotos) w"
  let ?ps = "take 200 (filter (\<lambda>q. property_id q = None) (tbl_photos (db w)))"
  have h: "reconcile_photos_handler e w
             = (Inr (fst (reconcile_loop e ?ps ?w1 [])), snd (reconcile_loop e ?ps ?w1 []))"
    using cfg fetch by (simp add: reconcile_photos_handler_def Let_def split: prod.splits)
  show ?thesis
    using reconcile_loop_reliable [of e ?ps ?w1 "[]", OF look upd] h by simp
qed

text \<open>
  Claim C7 as stated does not hold beyond the batch cap. With 201 orphan photos that all
  match a property, the first pass takes the first 200
  and the second pass, with no orphan created in between, associates the one that is
  left: its list is not empty.
\<close>

theorem reconcile_second_pass_not_empty:
  "map property_id (tbl_photos (db (orphans_world 201))) = replicate 201 None
   \<and> fst (reconcile_photos_handler example_env
            (snd (reconcile_photos_handler example_env (orphans_world 201))))
        = Inr [(''ph-200'', ''p1'')]"
proof -
  let ?W = "orphans_world 201"
  let ?W1 = "snd (reconcile_photos_handler example_env ?W)"
  let ?orph = "\<lambda>q. property_id q = None"
  let ?ps1 = "map orphan_photo [0..<200]"
  let ?F = "fold (associate_step [listed_property]) ?ps1"
  have props0: "tbl_properties (db ?W) = [listed_property]"
    and photos0: "tbl_photos (db ?W) = map orphan_photo [0..<201]"
    by (simp_all add: orphans_world_def)
  have orph0: "filter ?orph (map orphan_photo [0..<201]) = map orphan_photo [0..<201]"
    by (simp add: filter_map o_def orphan_photo_def)
  have batch1: "take 200 (filter ?orph (tbl_photos (db ?W))) = ?ps1"
    by (simp add: photos0 orph0 take_map)
  have m: "matched_id [listed_property] (orphan_photo n) = Some ''p1''" for n
    by (simp add: matched_id_def orphan_photo_def listed_property_def)
  note r1 = reconcile_handler_reliable [of example_env ?W, OF example_env_reliable(1)
               example_env_reliable(2) example_env_reliable(2) example_env_reliable(2)]
  have props1: "tbl_properties (db ?W1) = [listed_property]"
    using r1 props0 by simp
  have photos1: "tbl_photos (db ?W1) = map ?F (map orphan_photo [0..<201])"
    using r1 props0 photos0 batch1 by simp
  have e201: "(201::nat) = Suc 200" by simp
  have split: "[0..<201] = [0..<200] @ [200::nat]"
    by (subst e201, subst upt_Suc) simp
  have hit: "property_id (?F (orphan_photo k)) \<noteq> None" if "k < 200" for k
  proof (rule fold_associate_hit)
    have "orphan_photo k \<in> set ?ps1" using that by simp
    then show "list_ex (\<lambda>p. photo_id p = photo_id (orphan_photo k)
                          \<and> matched_id [listed_property] p \<noteq> None) ?ps1"
      unfolding list_ex_iff using m by blast
  qed
  have others: "list_all (\<lambda>p. photo_id p \<noteq> photo_id (orphan_photo 200)) ?ps1"
    by code_simp
  have miss: "?F (orphan_photo 200) = orphan_photo 200"
    by (rule fold_associate_other [OF others])
  have none: "filter ?orph (map ?F ?ps1) = []"
    using hit by (auto simp: filter_empty_conv)
  have orph1: "filter ?orph (tbl_photos (db ?W1)) = [orphan_photo 200]"
    unfolding photos1 split using none miss by (simp add: orphan_photo_def)
  note r2 = reconcile_handler_reliable [of example_env ?W1, OF example_env_reliable(1)
               example_env_reliable(2) example_env_reliable(2) example_env_reliable(2)]
  have id: "photo_id (orphan_photo 200) = ''ph-200''" by code_simp
  have "fst (reconcile_photos_handler example_env ?W1) = Inr [(photo_id (orphan_photo 200), ''p1'')]"
    using r2 props1 orph1 m by (simp add: associations_def)
  moreover have "map property_id (tbl_photos (db ?W)) = replicate 201 None"
    by (simp add: photos0 o_def orphan_photo_def map_replicate_const)
  ultimately show ?thesis
    using id by simp
qed

text \<open>
  Claim C7 (as amended). Let the store calls of the first pass succeed. A photo row whose
  property reference the first pass has set is excluded from the null filter of the next
  pass: no photo associated by the first pass is associated again by the second, however
  the second pass turns out. If moreover the first pass saw every orphan (there were at
  most 200), the second pass, with nothing changed in between, yields an empty list.
\<close>

theorem reconcile_twice:
  assumes cfg: "getSupabaseOrThrow e = None"
      and fetch: "client e SelectOrphanPhotos = Succeeds"
      and look: "\<forall>u. client e (SelectPropertyByImage u) = Succeeds"
      and upd: "\<forall>i. client e (UpdatePhotoProperty i) = Succeeds"
      and first: "reconcile_photos_handler e w = (Inr r1, w1)"
      and second: "reconcile_photos_handler e2 w1 = (Inr r2, w2)"
  shows "fst ` set r1 \<inter> fst ` set r2 = {}
       \<and> (length (filter (\<lambda>q. property_id q = None) (tbl_photos (db w))) \<le> 200 \<longrightarrow> r2 = [])"
  supply db_logged [simp]
proof -
  let ?props = "tbl_properties (db w)"
  let ?orph = "\<lambda>q. property_id q = None"
  let ?ps1 = "take 200 (filter ?orph (tbl_photos (db w)))"
  let ?ps2 = "take 200 (filter ?orph (tbl_photos (db w1)))"
  have rel: "r1 = associations ?props ?ps1" "tbl_properties (db w1) = ?props"
       "tbl_photos (db w1) = map (fold (associate_step ?props) ?ps1) (tbl_photos (db w))"
    using reconcile_handler_reliable [of e w, OF cfg fetch] look upd first by simp_all
  have in2: "q2 \<in> set (tbl_photos (db w)) \<and> property_id q2 = None
             \<and> list_all (\<lambda>p. matched_id ?props p = None \<or> photo_id p \<noteq> photo_id q2) ?ps1"
    if "q2 \<in> set ?ps2" for q2
  proof -
    from that have m: "q2 \<in> set (tbl_photos (db w1))" and o: "property_id q2 = None"
      by (auto dest: in_set_takeD)
    from m rel(3) obtain q where q: "q \<in> set (tbl_photos (db w))"
        "q2 = fold (associate_step ?props) ?ps1 q" by auto
    from fold_associate_orphan [of ?props ?ps1 q] o q show ?thesis by simp
  qed
  have r2: "r2 = [] \<or> (getSupabaseOrThrow e2 = None \<and> client e2 SelectOrphanPhotos = Succeeds
              \<and> r2 = fst (reconcile_loop e2 ?ps2 (logged (ClientCall SelectOrphanPhotos) w1) []))"
    using second
    by (cases "client e2 SelectOrphanPhotos")
       (auto simp: reconcile_photos_handler_def Let_def split: option.splits prod.splits)
  have disj: "fst ` set r1 \<inter> fst ` set r2 = {}"
  proof (rule ccontr)
    assume "fst ` set r1 \<inter> fst ` set r2 \<noteq> {}"
    then obtain x where x1: "x \<in> fst ` set r1" and x2: "x \<in> fst ` set r2" by blast
    from x2 r2 have "x \<in> fst ` set (fst (reconcile_loop e2 ?ps2 (logged (ClientCall SelectOrphanPhotos) w1) []))"
      by auto
    from reconcile_loop_ids [OF this] obtain q2 where q2: "q2 \<in> set ?ps2" "x = photo_id q2"
      by auto
    from x1 rel(1) obtain p where p: "p \<in> set ?ps1" "x = photo_id p" "matched_id ?props p \<noteq> None"
      by (auto dest!: associations_member)
    from in2 [OF q2(1)] p q2(2) show False
      by (auto simp: list_all_iff)
  qed
  have empty: "r2 = []" if le: "length (filter ?orph (tbl_photos (db w))) \<le> 200"
  proof -
    from le have all: "?ps1 = filter ?orph (tbl_photos (db w))" by simp
    have "list_all (\<lambda>p. matched_id (tbl_properties (db (logged (ClientCall SelectOrphanPhotos) w1))) p = None) ?ps2"
      unfolding list_all_iff
    proof
      fix q2 assume a: "q2 \<in> set ?ps2"
      from in2 [OF a] have "q2 \<in> set ?ps1" unfolding all by simp
      with in2 [OF a] have "matched_id ?props q2 = None" by (auto simp: list_all_iff)
      then show "matched_id (tbl_properties (db (logged (ClientCall SelectOrphanPhotos) w1))) q2 = None"
        using rel(2) by simp
    qed
    from reconcile_loop_unmatched [OF this, of e2 "[]"] r2 show ?thesis by auto
  qed
  from disj empty show ?thesis by blast
qed

theorem reconcile_twice_witness:
  "getSupabaseOrThrow example_env = None
   \<and> client example_env SelectOrphanPhotos = Succeeds
   \<and> (\<forall>u. client example_env (SelectPropertyByImage u) = Succeeds)
   \<and> (\<forall>i. client example_env (UpdatePhotoProperty i) = Succeeds)
   \<and> fst (reconcile_photos_handler example_env (orphans_world 1)) = Inr [(''ph-0'', ''p1'')]
   \<and> length (filter (\<lambda>q. property_id q = None) (tbl_photos (db (orphans_world 1)))) \<le> 200
   \<and> fst (reconcile_photos_handler example_env
            (snd (reconcile_photos_handler example_env (orphans_world 1)))) = Inr []"
proof -
  let ?h1 = "reconcile_photos_handler example_env (orphans_world 1)"
  let ?h2 = "reconcile_photos_handler example_env (snd ?h1)"
  have look: "\<forall>u. client example_env (SelectPropertyByImage u) = Succeeds"
    and upd: "\<forall>i. client example_env (UpdatePhotoProperty i) = Succeeds"
    by (simp_all add: example_env_reliable)
  have f1: "fst ?h1 = Inr [(''ph-0'', ''p1'')]" by code_simp
  then have first: "?h1 = (Inr [(''ph-0'', ''p1'')], snd ?h1)" by (metis prod.collapse)
  obtain r2 where f2: "fst ?h2 = Inr r2"
    using reconcile_handler_reliable [of example_env "snd ?h1"] example_env_reliable by blast
  then have second: "?h2 = (Inr r2, snd ?h2)" by (metis prod.collapse)
  have le: "length (filter (\<lambda>q. property_id q = None) (tbl_photos (db (orphans_world 1)))) \<le> 200"
    by (simp add: orphans_world_def)
  from reconcile_twice [OF example_env_reliable(1) example_env_reliable(2) look upd first second] le
  have "r2 = []" by blast
  with f1 f2 le look upd example_env_reliable show ?thesis by simp
qed


end
